theory Spec2Isabelle
  imports Main "HOL-Library.Sublist" "HOL-Library.AList" "HOL-Library.Word"
begin

section \<open>Python values\<close>

text \<open>
  A Python \<open>str\<close> is modelled as a \<open>string\<close>, one \<open>char\<close> per code point, so the
  model covers the strings whose code points lie in U+0000..U+00FF. A Python \<open>float\<close>
  is carried as its IEEE-754 binary64 bit pattern; the program stores floats and never
  computes with them in the functions modelled here.
\<close>

type_synonym pyfloat = "64 word"

datatype pyval =
    PyNone
  | PyBool bool
  | PyInt int
  | PyFloat pyfloat
  | PyStr string
  | PyList "pyval list"
  | PyDict "(string \<times> pyval) list"

datatype py_exn =
    KeyError string
  | EmptyDataError
  | FileNotFoundError
  | OtherException string

text \<open>\<open>isinstance(v, str)\<close>\<close>

fun isinstance_str :: "pyval \<Rightarrow> bool" where
  "isinstance_str (PyStr s) = True"
| "isinstance_str v = False"

section \<open>String primitives used by \<open>parse_review\<close>\<close>

text \<open>
  The code points below 256 for which Python's \<open>str.isspace\<close> holds: U+0009..U+000D,
  U+001C..U+001F, U+0020, U+0085 and U+00A0. \<open>str.strip()\<close> without argument removes them
  from both ends.
\<close>

definition whitespace :: string where
  "whitespace = [CHR 0x09, CHR 0x0A, CHR 0x0B, CHR 0x0C, CHR 0x0D,
                 CHR 0x1C, CHR 0x1D, CHR 0x1E, CHR 0x1F, CHR 0x20, CHR 0x85, CHR 0xA0]"

definition is_space :: "char \<Rightarrow> bool" where
  "is_space c = (c \<in> set whitespace)"

definition lstrip :: "string \<Rightarrow> string" where
  "lstrip s = dropWhile is_space s"

definition rstrip :: "string \<Rightarrow> string" where
  "rstrip s = rev (dropWhile is_space (rev s))"

definition strip :: "string \<Rightarrow> string" where
  "strip s = rstrip (lstrip s)"

text \<open>\<open>s.startswith(p)\<close>\<close>

definition startswith :: "string \<Rightarrow> string \<Rightarrow> bool" where
  "startswith s p = prefix p s"

text \<open>
  \<open>s.split(sep)\<close> for a separator: the pieces between the non-overlapping occurrences of
  \<open>sep\<close>, found from the left; the result has at least one piece. Python raises
  \<open>ValueError\<close> for an empty separator; the program only ever passes the literal
  \<open>'\n-'\<close>, and the model treats an empty separator as one that never occurs.
  \<open>split_from sep cur s\<close> is the scan with \<open>cur\<close> the piece read so far.
\<close>

function split_from :: "string \<Rightarrow> string \<Rightarrow> string \<Rightarrow> string list" where
  "split_from sep cur [] = [cur]"
| "split_from sep cur (c # cs) =
     (if sep \<noteq> [] \<and> prefix sep (c # cs)
      then cur # split_from sep [] (drop (length sep) (c # cs))
      else split_from sep (cur @ [c]) cs)"
  by pat_completeness auto
termination
  by (relation "measure (\<lambda>(sep, cur, s). length s)") (auto simp: neq_Nil_conv)

definition split :: "string \<Rightarrow> string \<Rightarrow> string list" where
  "split s sep = split_from sep [] s"

section \<open>The regular expressions of \<open>parse_review\<close>\<close>

text \<open>
  \<open>re.search\<close> tries the start positions from the left. Each pattern begins with a
  literal marker, so the match starts at the first occurrence of the marker;
  \<open>after_marker m text\<close> is the text after that occurrence, \<open>None\<close> when the marker does
  not occur (\<open>re.search\<close> returns \<open>None\<close>).
\<close>

fun after_marker :: "string \<Rightarrow> string \<Rightarrow> string option" where
  "after_marker m [] = (if m = [] then Some [] else None)"
| "after_marker m (c # cs) =
     (if prefix m (c # cs) then Some (drop (length m) (c # cs)) else after_marker m cs)"

text \<open>
  The group \<open>(.*?)(?=nxt|\Z)\<close> under \<open>re.DOTALL\<close>: the lazy star takes one character
  at a time, of any kind, and stops at the first position where \<open>nxt\<close> starts or the
  text ends. The lookahead always succeeds at the end of the text, so once the marker
  is found the match never fails.
\<close>

fun lazy_until :: "string \<Rightarrow> string \<Rightarrow> string" where
  "lazy_until nxt [] = []"
| "lazy_until nxt (c # cs) = (if prefix nxt (c # cs) then [] else c # lazy_until nxt cs)"

text \<open>\<open>re.search(m(.*?)(?=nxt|\Z), text, re.DOTALL)\<close>, giving \<open>group(1)\<close> of the match.\<close>

definition search_until :: "string \<Rightarrow> string \<Rightarrow> string \<Rightarrow> string option" where
  "search_until m nxt text = map_option (lazy_until nxt) (after_marker m text)"

text \<open>\<open>re.search(m(.*), text, re.DOTALL)\<close>: the greedy star takes the rest of the text.\<close>

definition search_rest :: "string \<Rightarrow> string \<Rightarrow> string option" where
  "search_rest m text = after_marker m text"

definition SUMMARY :: string where "SUMMARY = ''**Summary**''"
definition STRENGTHS :: string where "STRENGTHS = ''**Strengths**''"
definition WEAKNESSES :: string where "WEAKNESSES = ''**Weaknesses**''"
definition QUESTIONS :: string where "QUESTIONS = ''**Questions**''"

section \<open>\<open>parse_review\<close>\<close>

text \<open>
  The result is a Python dict from section name to list of strings, modelled as an
  association list in insertion order. \<open>d[k]\<close> raises \<open>KeyError\<close> on a missing key;
  \<open>d[k] = v\<close> replaces the value of an existing key in place.
\<close>

type_synonym sections = "(string \<times> string list) list"

definition getitem :: "sections \<Rightarrow> string \<Rightarrow> py_exn + string list" where
  "getitem d k = (case map_of d k of None \<Rightarrow> Inl (KeyError k) | Some v \<Rightarrow> Inr v)"

definition setitem :: "sections \<Rightarrow> string \<Rightarrow> string list \<Rightarrow> sections" where
  "setitem d k v = AList.update k v d"

text \<open>The body of the inner loop over \<open>raw_points\<close> (lines 56 to 63).\<close>

definition clean_point :: "string \<Rightarrow> string" where
  "clean_point point =
     (let cleaned = strip point
      in if startswith cleaned ''-'' then strip (drop 1 cleaned) else cleaned)"

fun clean_points :: "string list \<Rightarrow> string list" where
  "clean_points [] = []"
| "clean_points (point # raw_points) =
     (let cleaned = clean_point point
      in if cleaned \<noteq> [] then cleaned # clean_points raw_points
         else clean_points raw_points)"

text \<open>Lines 52 to 63: from \<open>match.group(1)\<close> to \<open>cleaned_points\<close>.\<close>

definition section_points :: "string \<Rightarrow> string list" where
  "section_points group1 =
     (let content = strip group1;
          raw_points = split content [CHR 0x0A, CHR ''-'']
      in clean_points raw_points)"

text \<open>The loop of line 50 over the three (match, section name) pairs.\<close>

fun fill_sections :: "(string option \<times> string) list \<Rightarrow> sections \<Rightarrow> sections" where
  "fill_sections [] d = d"
| "fill_sections ((m, section_name) # rest) d =
     fill_sections rest
       (case m of None \<Rightarrow> d | Some group1 \<Rightarrow> setitem d section_name (section_points group1))"

definition not_available :: sections where
  "not_available =
     [(''Summary'', [''Not Available'']), (''Strengths'', []),
      (''Weaknesses'', []), (''Questions'', [])]"

definition empty_sections :: sections where
  "empty_sections =
     [(''Summary'', []), (''Strengths'', []), (''Weaknesses'', []), (''Questions'', [])]"

text \<open>Lines 47 and 48: \<open>sections["Summary"].append(...)\<close> when the match is non-blank.\<close>

definition add_summary :: "string option \<Rightarrow> sections \<Rightarrow> py_exn + sections" where
  "add_summary summary_match d =
     (case summary_match of
        None \<Rightarrow> Inr d
      | Some group1 \<Rightarrow>
          if strip group1 \<noteq> [] then
            (case getitem d ''Summary'' of
               Inl e \<Rightarrow> Inl e
             | Inr l \<Rightarrow> Inr (setitem d ''Summary'' (l @ [strip group1])))
          else Inr d)"

definition parse_str :: "string \<Rightarrow> py_exn + sections" where
  "parse_str review_text =
     (let summary_match = search_until SUMMARY STRENGTHS review_text;
          strengths_match = search_until STRENGTHS WEAKNESSES review_text;
          weaknesses_match = search_until WEAKNESSES QUESTIONS review_text;
          questions_match = search_rest QUESTIONS review_text
      in case add_summary summary_match empty_sections of
           Inl e \<Rightarrow> Inl e
         | Inr d \<Rightarrow>
             Inr (fill_sections
                    [(strengths_match, ''Strengths''), (weaknesses_match, ''Weaknesses''),
                     (questions_match, ''Questions'')] d))"

definition parse_review :: "pyval \<Rightarrow> py_exn + sections" where
  "parse_review review_text =
     (case review_text of
        PyStr s \<Rightarrow> parse_str s
      | _ \<Rightarrow> Inr not_available)"

section \<open>The evaluation store\<close>



subsection \<open>Data frames\<close>

text \<open>
  A pandas \<open>DataFrame\<close>: its column labels and its rows, each row giving the cell of a
  column (\<open>None\<close> for a missing cell, which pandas shows as NaN).
\<close>

record frame =
  columns :: "string list"
  rows :: "(string \<Rightarrow> pyval option) list"



text \<open>\<open>df.empty\<close>: some axis has length 0.\<close>

definition frame_empty :: "frame \<Rightarrow> bool" where
  "frame_empty df = (columns df = [] \<or> rows df = [])"

text \<open>\<open>df[name]\<close>: the cells of a column, \<open>KeyError\<close> when there is no such column.\<close>

definition column :: "frame \<Rightarrow> string \<Rightarrow> py_exn + pyval option list" where
  "column df name =
     (if name \<in> set (columns df) then Inr (map (\<lambda>r. r name) (rows df))
      else Inl (KeyError name))"

text \<open>
  \<open>len(df[df[name] == v])\<close> for a string \<open>v\<close>: the number of rows whose cell equals it.
\<close>

definition count_equal :: "pyval option list \<Rightarrow> string \<Rightarrow> nat" where
  "count_equal cells v = length (filter (\<lambda>c. c = Some (PyStr v)) cells)"

subsection \<open>\<open>save_results\<close> and \<open>get_user_progress\<close>\<close>


text \<open>The body of the \<open>try\<close> block of \<open>get_user_progress\<close> (lines 121 to 125).\<close>

definition progress_try ::
  "('f \<Rightarrow> py_exn + frame) \<Rightarrow> 'f \<Rightarrow> string \<Rightarrow> py_exn + nat" where
  "progress_try read_csv file usr =
     (case read_csv file of
        Inl e \<Rightarrow> Inl e
      | Inr results_df \<Rightarrow>
          if frame_empty results_df then Inr 0
          else (case column results_df ''user'' of
                  Inl e \<Rightarrow> Inl e
                | Inr cells \<Rightarrow> Inr (count_equal cells usr)))"

text \<open>
  The two handlers: \<open>EmptyDataError\<close> and \<open>FileNotFoundError\<close> first, then every other
  \<open>Exception\<close>; both return 0.
\<close>

definition get_user_progress ::
  "('f \<Rightarrow> py_exn + frame) \<Rightarrow> (string \<Rightarrow> 'f option) \<Rightarrow> string \<Rightarrow> string \<Rightarrow> py_exn + nat" where
  "get_user_progress read_csv fs results_path usr =
     (case fs results_path of
        None \<Rightarrow> Inr 0
      | Some file \<Rightarrow>
          (case progress_try read_csv file usr of
             Inr n \<Rightarrow> Inr n
           | Inl e \<Rightarrow>
               if e = EmptyDataError \<or> e = FileNotFoundError then Inr 0
               else Inr 0))"


text \<open>
  A store for concrete runs: a file is either the CSV text of a frame, read back as that
  frame, or a file of zero bytes, on which \<open>pd.read_csv\<close> raises \<open>EmptyDataError\<close>.
\<close>

datatype csv_file = Csv frame | ZeroBytes

definition read_csv_file :: "csv_file \<Rightarrow> py_exn + frame" where
  "read_csv_file f = (case f of Csv df \<Rightarrow> Inr df | ZeroBytes \<Rightarrow> Inl EmptyDataError)"


section \<open>Notions used to state the properties\<close>

text \<open>The keys of the dict that \<open>parse_review\<close> returns, in insertion order.\<close>

definition section_names :: "string list" where
  "section_names = [''Summary'', ''Strengths'', ''Weaknesses'', ''Questions'']"

text \<open>
  Positions and spans in a text. \<open>starts_at m text i\<close>: the string \<open>m\<close> occurs in
  \<open>text\<close> at index \<open>i\<close>. \<open>first_split m text pre post\<close>: \<open>text\<close> is \<open>pre\<close>, then \<open>m\<close>,
  then \<open>post\<close>, and this is the first occurrence of \<open>m\<close>. \<open>span_until nxt a content\<close>:
  \<open>content\<close> is the shortest prefix of \<open>a\<close> that is followed by \<open>nxt\<close> or by the end
  of \<open>a\<close>; it may hold any characters, newlines included. \<open>section_span\<close> puts the two
  together: the content between the first \<open>m\<close> and the first \<open>nxt\<close> after it.
\<close>

definition starts_at :: "string \<Rightarrow> string \<Rightarrow> nat \<Rightarrow> bool" where
  "starts_at m text i = prefix m (drop i text)"

definition first_split :: "string \<Rightarrow> string \<Rightarrow> string \<Rightarrow> string \<Rightarrow> bool" where
  "first_split m text pre post =
     (text = pre @ m @ post \<and> (\<forall>i<length pre. \<not> starts_at m text i))"

definition span_until :: "string \<Rightarrow> string \<Rightarrow> string \<Rightarrow> bool" where
  "span_until nxt a content =
     (prefix content a \<and> (\<forall>i<length content. \<not> starts_at nxt a i) \<and>
      (let rest = drop (length content) a in rest = [] \<or> prefix nxt rest))"

definition section_span :: "string \<Rightarrow> string \<Rightarrow> string \<Rightarrow> string \<Rightarrow> bool" where
  "section_span m nxt text content =
     (\<exists>pre post. first_split m text pre post \<and> span_until nxt post content)"

text \<open>
  The span rule in the words of the specification: the content that follows the marker
  runs up to a marker that comes later in the fixed order, or to the end of the text when
  no later marker occurs after it.
\<close>

definition later_markers :: "string \<Rightarrow> string list" where
  "later_markers m = drop 1 (dropWhile (\<lambda>x. x \<noteq> m) [SUMMARY, STRENGTHS, WEAKNESSES, QUESTIONS])"

definition claimed_content :: "string \<Rightarrow> string \<Rightarrow> string \<Rightarrow> bool" where
  "claimed_content m text content =
     (case after_marker m text of
        None \<Rightarrow> False
      | Some a \<Rightarrow>
          prefix content a \<and>
          (let rest = drop (length content) a
           in (\<exists>n\<in>set (later_markers m). prefix n rest) \<or>
              (rest = [] \<and> (\<forall>n\<in>set (later_markers m). \<not> sublist n a))))"

text \<open>
  The cleaning of the points in the words of the specification: a candidate is stripped;
  if a leading hyphen remains, the hyphen and the whitespace after it are removed.
  \<open>points_of\<close> splits a content on newline-hyphen, cleans every candidate and drops the
  empty ones, keeping the order. \<open>blank\<close>: only whitespace.
\<close>

definition nl_hyphen :: string where
  "nl_hyphen = [CHR 0x0A, CHR ''-'']"

definition spec_clean :: "string \<Rightarrow> string" where
  "spec_clean p =
     (case strip p of [] \<Rightarrow> [] | c # r \<Rightarrow> if c = CHR ''-'' then lstrip r else c # r)"

definition points_of :: "string \<Rightarrow> string list" where
  "points_of content = filter (\<lambda>p. p \<noteq> []) (map spec_clean (split content nl_hyphen))"

definition blank :: "string \<Rightarrow> bool" where
  "blank s = (\<forall>c\<in>set s. is_space c)"

text \<open>The value of a section in the result, from the match of its regular expression.\<close>

definition summary_value :: "string option \<Rightarrow> string list" where
  "summary_value m = (case m of None \<Rightarrow> [] | Some g \<Rightarrow> if strip g \<noteq> [] then [strip g] else [])"

definition points_value :: "string option \<Rightarrow> string list" where
  "points_value m = (case m of None \<Rightarrow> [] | Some g \<Rightarrow> section_points g)"

text \<open>
  Values for concrete runs of the store: the path of the results file, a record of a
  given user and paper, and a results file that holds the header line and no row.
\<close>

definition results_csv :: string where
  "results_csv = ''data/evaluation_results.csv''"


definition header_only :: frame where
  "header_only =
     \<lparr>columns = [''timestamp'', ''user'', ''paper_id'', ''review_type'', ''reviewer_confidence'',
                 ''review_thoroughness'', ''constructiveness'', ''helpfulness''],
      rows = []\<rparr>"

section \<open>Properties of \<open>parse_review\<close>\<close>

subsection \<open>The keys of the result\<close>

lemma keys_setitem:
  "k \<in> set (map fst d) \<Longrightarrow> map fst (setitem d k v) = map fst d"
  by (simp add: setitem_def update_keys)

lemma keys_add_summary:
  "map fst d = section_names \<Longrightarrow> \<exists>d'. add_summary m d = Inr d' \<and> map fst d' = section_names"
proof -
  assume k: "map fst d = section_names"
  then have "''Summary'' \<in> set (map fst d)" by (simp add: section_names_def)
  then obtain l where l: "map_of d ''Summary'' = Some l"
    by (metis (no_types) map_of_eq_None_iff not_None_eq set_map)
  show ?thesis
    using k l \<open>''Summary'' \<in> set (map fst d)\<close>
    by (auto simp: add_summary_def getitem_def keys_setitem split: option.splits)
qed

lemma keys_fill_sections:
  "set (map snd ms) \<subseteq> set (map fst d) \<Longrightarrow> map fst (fill_sections ms d) = map fst d"
proof (induction ms arbitrary: d)
  case Nil
  then show ?case by simp
next
  case (Cons a ms)
  obtain m n where a: "a = (m, n)" by (cases a)
  show ?case
  proof (cases m)
    case None
    with Cons a show ?thesis by simp
  next
    case (Some g)
    from Cons.prems a have n: "n \<in> set (map fst d)" by simp
    have "map fst (setitem d n (section_points g)) = map fst d"
      by (rule keys_setitem [OF n])
    with Cons.IH [of "setitem d n (section_points g)"] Cons.prems a Some show ?thesis by simp
  qed
qed

lemma keys_parse_str: "\<exists>d. parse_str s = Inr d \<and> map fst d = section_names"
proof -
  have "map fst empty_sections = section_names"
    by (simp add: empty_sections_def section_names_def)
  from keys_add_summary [OF this]
  obtain d' where d': "add_summary (search_until SUMMARY STRENGTHS s) empty_sections = Inr d'"
    "map fst d' = section_names" by blast
  show ?thesis
  proof -
    let ?ms = "[(search_until STRENGTHS WEAKNESSES s, ''Strengths''),
                (search_until WEAKNESSES QUESTIONS s, ''Weaknesses''),
                (search_rest QUESTIONS s, ''Questions'')]"
    have "set (map snd ?ms) \<subseteq> set (map fst d')"
      using d'(2) by (simp add: section_names_def)
    then have "map fst (fill_sections ?ms d') = section_names"
      using d'(2) by (simp only: keys_fill_sections)
    then show ?thesis
      using d'(1) by (simp add: parse_str_def Let_def del: fill_sections.simps)
  qed
qed

text \<open>
  C1: on the review text of the specification's example, \<open>parse_review\<close> returns the
  summary \<open>Good paper.\<close>, the strengths \<open>clear writing\<close> and \<open>solid experiments\<close>, the
  weakness \<open>too long\<close> and the question \<open>Why not compare to X?\<close>.
\<close>

theorem parse_review_example:
  "parse_review (PyStr ''**Summary**\<newline>Good paper.\<newline>**Strengths**\<newline>- clear writing\<newline>- solid experiments\<newline>**Weaknesses**\<newline>- too long\<newline>**Questions**\<newline>Why not compare to X?'')
   = Inr [(''Summary'', [''Good paper.'']),
          (''Strengths'', [''clear writing'', ''solid experiments'']),
          (''Weaknesses'', [''too long'']),
          (''Questions'', [''Why not compare to X?''])]"
  by code_simp

text \<open>
  C2: for every value that is not a string, \<open>parse_review\<close> returns, without raising,
  the dict with summary \<open>["Not Available"]\<close> and the three other sections empty.
\<close>

theorem parse_review_not_str:
  "\<not> isinstance_str v \<Longrightarrow>
   parse_review v =
     Inr [(''Summary'', [''Not Available'']), (''Strengths'', []),
          (''Weaknesses'', []), (''Questions'', [])]"
  by (cases v) (simp_all add: parse_review_def not_available_def)

theorem parse_review_not_str_witness:
  "\<not> isinstance_str PyNone \<and> \<not> isinstance_str (PyInt 42) \<and>
   parse_review PyNone =
     Inr [(''Summary'', [''Not Available'']), (''Strengths'', []),
          (''Weaknesses'', []), (''Questions'', [])] \<and>
   parse_review (PyInt 42) =
     Inr [(''Summary'', [''Not Available'']), (''Strengths'', []),
          (''Weaknesses'', []), (''Questions'', [])]"
proof -
  have a: "\<not> isinstance_str PyNone" by simp
  have b: "\<not> isinstance_str (PyInt 42)" by simp
  show ?thesis
    using a b parse_review_not_str [OF a] parse_review_not_str [OF b] by simp
qed

text \<open>
  C3: \<open>parse_review\<close> is total: for every input it returns a dict, never an exception,
  and the dict has exactly the four keys Summary, Strengths, Weaknesses and Questions,
  each bound to a list. Every function of the model is a terminating recursion.
\<close>

theorem parse_review_total:
  "\<exists>d. parse_review v = Inr d \<and>
       map fst d = [''Summary'', ''Strengths'', ''Weaknesses'', ''Questions'']"
proof (cases v)
  case (PyStr s)
  then show ?thesis
    using keys_parse_str [of s] by (simp add: parse_review_def section_names_def)
qed (simp_all add: parse_review_def not_available_def)

subsection \<open>Occurrences and spans\<close>

lemma after_marker_None: "after_marker m t = None \<longleftrightarrow> \<not> sublist m t"
  by (induction t) (auto simp: sublist_Cons_right)


lemma after_marker_first_split:
  "after_marker m t = Some a \<longleftrightarrow> (\<exists>pre. first_split m t pre a)"
proof (induction t)
  case Nil
  then show ?case by (auto simp: first_split_def)
next
  case (Cons c cs)
  show ?case
  proof (cases "prefix m (c # cs)")
    case True
    have "(\<exists>pre. first_split m (c # cs) pre a) \<longleftrightarrow> c # cs = m @ a"
    proof
      assume "\<exists>pre. first_split m (c # cs) pre a"
      then obtain pre where p: "c # cs = pre @ m @ a"
        "\<forall>i<length pre. \<not> starts_at m (c # cs) i"
        by (auto simp: first_split_def)
      have "pre = []"
      proof (rule ccontr)
        assume "pre \<noteq> []"
        then have "0 < length pre" by simp
        with p(2) have "\<not> starts_at m (c # cs) 0" by blast
        with True show False by (simp add: starts_at_def)
      qed
      with p(1) show "c # cs = m @ a" by simp
    next
      assume "c # cs = m @ a"
      then show "\<exists>pre. first_split m (c # cs) pre a"
        by (intro exI [of _ "[]"]) (simp add: first_split_def)
    qed
    moreover have "c # cs = m @ a \<longleftrightarrow> a = drop (length m) (c # cs)"
      using True by (metis append_eq_conv_conj prefix_def)
    ultimately show ?thesis using True by auto
  next
    case False
    have "(\<exists>pre. first_split m (c # cs) pre a) \<longleftrightarrow> (\<exists>pre'. first_split m cs pre' a)"
    proof
      assume "\<exists>pre. first_split m (c # cs) pre a"
      then obtain pre where p: "c # cs = pre @ m @ a"
        "\<forall>i<length pre. \<not> starts_at m (c # cs) i"
        by (auto simp: first_split_def)
      have "pre \<noteq> []"
      proof
        assume "pre = []"
        with p(1) have "prefix m (c # cs)" by simp
        with False show False by simp
      qed
      then obtain pre' where pre: "pre = c # pre'" using p(1) by (cases pre) auto
      have "\<forall>i<length pre'. \<not> starts_at m cs i"
      proof (intro allI impI)
        fix i assume "i < length pre'"
        then have "Suc i < length pre" by (simp add: pre)
        with p(2) have "\<not> starts_at m (c # cs) (Suc i)" by blast
        then show "\<not> starts_at m cs i" by (simp add: starts_at_def)
      qed
      with p(1) pre show "\<exists>pre'. first_split m cs pre' a"
        by (auto simp: first_split_def)
    next
      assume "\<exists>pre'. first_split m cs pre' a"
      then obtain pre' where p: "cs = pre' @ m @ a"
        "\<forall>i<length pre'. \<not> starts_at m cs i"
        by (auto simp: first_split_def)
      have "\<forall>i<length (c # pre'). \<not> starts_at m (c # cs) i"
      proof (intro allI impI)
        fix i assume i: "i < length (c # pre')"
        show "\<not> starts_at m (c # cs) i"
        proof (cases i)
          case 0
          with False show ?thesis by (simp add: starts_at_def)
        next
          case (Suc j)
          with i p(2) show ?thesis by (simp add: starts_at_def)
        qed
      qed
      with p(1) show "\<exists>pre. first_split m (c # cs) pre a"
        by (intro exI [of _ "c # pre'"]) (simp add: first_split_def)
    qed
    with Cons False show ?thesis by simp
  qed
qed

lemma lazy_until_span: "lazy_until nxt a = c \<longleftrightarrow> span_until nxt a c"
proof (induction a arbitrary: c)
  case Nil
  then show ?case by (auto simp: span_until_def)
next
  case (Cons x xs)
  show ?case
  proof (cases "prefix nxt (x # xs)")
    case True
    have "span_until nxt (x # xs) c \<longleftrightarrow> c = []"
    proof
      assume s: "span_until nxt (x # xs) c"
      show "c = []"
      proof (rule ccontr)
        assume "c \<noteq> []"
        then have "0 < length c" by simp
        with s have "\<not> starts_at nxt (x # xs) 0" by (auto simp: span_until_def)
        with True show False by (simp add: starts_at_def)
      qed
    next
      assume "c = []"
      with True show "span_until nxt (x # xs) c" by (simp add: span_until_def)
    qed
    with True show ?thesis by auto
  next
    case False
    have "span_until nxt (x # xs) c \<longleftrightarrow> (\<exists>c'. c = x # c' \<and> span_until nxt xs c')"
    proof
      assume s: "span_until nxt (x # xs) c"
      have "c \<noteq> []"
      proof
        assume "c = []"
        with s False show False by (simp add: span_until_def)
      qed
      then obtain c' where c: "c = x # c'" using s by (cases c) (auto simp: span_until_def)
      have "\<forall>i<length c'. \<not> starts_at nxt xs i"
      proof (intro allI impI)
        fix i assume "i < length c'"
        then have "Suc i < length c" by (simp add: c)
        with s have "\<not> starts_at nxt (x # xs) (Suc i)" by (auto simp: span_until_def)
        then show "\<not> starts_at nxt xs i" by (simp add: starts_at_def)
      qed
      with s c show "\<exists>c'. c = x # c' \<and> span_until nxt xs c'"
        by (auto simp: span_until_def Let_def)
    next
      assume "\<exists>c'. c = x # c' \<and> span_until nxt xs c'"
      then obtain c' where c: "c = x # c'" and s: "span_until nxt xs c'" by blast
      have "\<forall>i<length c. \<not> starts_at nxt (x # xs) i"
      proof (intro allI impI)
        fix i assume i: "i < length c"
        show "\<not> starts_at nxt (x # xs) i"
        proof (cases i)
          case 0
          with False show ?thesis by (simp add: starts_at_def)
        next
          case (Suc j)
          with i c s show ?thesis by (auto simp: starts_at_def span_until_def)
        qed
      qed
      with c s show "span_until nxt (x # xs) c" by (auto simp: span_until_def Let_def)
    qed
    with Cons [of "tl c"] False show ?thesis by (cases c) auto
  qed
qed

lemma search_until_span:
  "search_until m nxt text = Some c \<longleftrightarrow> section_span m nxt text c"
proof -
  have "search_until m nxt text = Some c \<longleftrightarrow>
        (\<exists>a. after_marker m text = Some a \<and> lazy_until nxt a = c)"
    by (auto simp: search_until_def)
  then show ?thesis
    by (simp add: after_marker_first_split lazy_until_span section_span_def) blast
qed


subsection \<open>Stripping and cleaning\<close>

lemma parse_str_fields:
  "parse_str text =
     Inr [(''Summary'', summary_value (search_until SUMMARY STRENGTHS text)),
          (''Strengths'', points_value (search_until STRENGTHS WEAKNESSES text)),
          (''Weaknesses'', points_value (search_until WEAKNESSES QUESTIONS text)),
          (''Questions'', points_value (search_rest QUESTIONS text))]"
  by (simp add: parse_str_def add_summary_def getitem_def setitem_def empty_sections_def
      summary_value_def points_value_def split: option.splits)

lemma rstrip_fixed: "rstrip s = s \<longleftrightarrow> s = [] \<or> \<not> is_space (last s)"
proof -
  have "rstrip s = s \<longleftrightarrow> dropWhile is_space (rev s) = rev s"
    by (metis rstrip_def rev_rev_ident)
  also have "\<dots> \<longleftrightarrow> rev s = [] \<or> \<not> is_space (hd (rev s))"
    by (rule dropWhile_eq_self_iff)
  finally show ?thesis by (auto simp: hd_rev)
qed

lemma rstrip_rstrip: "rstrip (rstrip s) = rstrip s"
  by (simp add: rstrip_def)

lemma strip_Cons_tail:
  assumes "strip p = c # r"
  shows "strip r = lstrip r"
proof -
  have "rstrip (c # r) = c # r"
    using assms rstrip_rstrip [of "lstrip p"] by (simp add: strip_def)
  then have last: "\<not> is_space (last (c # r))" by (simp add: rstrip_fixed)
  show ?thesis
  proof (cases "lstrip r = []")
    case True
    then show ?thesis by (simp add: strip_def rstrip_def)
  next
    case False
    then have "r \<noteq> []" by (auto simp: lstrip_def)
    have "suffix (lstrip r) r" by (simp add: lstrip_def suffix_dropWhile)
    then obtain z where "r = z @ lstrip r" by (auto simp: suffix_def)
    then have "last r = last (lstrip r)" using False by (metis last_appendR)
    with last \<open>r \<noteq> []\<close> have "\<not> is_space (last (lstrip r))" by simp
    then have "rstrip (lstrip r) = lstrip r" by (simp add: rstrip_fixed)
    then show ?thesis by (simp add: strip_def)
  qed
qed

lemma clean_point_spec: "clean_point p = spec_clean p"
proof (cases "strip p")
  case Nil
  then show ?thesis by (simp add: clean_point_def spec_clean_def startswith_def)
next
  case (Cons c r)
  then show ?thesis
    using strip_Cons_tail [OF Cons]
    by (simp add: clean_point_def spec_clean_def startswith_def)
qed

lemma clean_points_filter:
  "clean_points ps = filter (\<lambda>p. p \<noteq> []) (map clean_point ps)"
  by (induction ps) (simp_all add: Let_def)

lemma section_points_spec: "section_points g = points_of (strip g)"
proof -
  have "clean_point = spec_clean" by (rule ext) (rule clean_point_spec)
  then show ?thesis
    by (simp add: section_points_def points_of_def clean_points_filter nl_hyphen_def)
qed

lemma strip_blank: "blank s \<Longrightarrow> strip s = []"
proof -
  assume "blank s"
  then have d: "dropWhile is_space s = []" by (simp add: blank_def dropWhile_eq_Nil_conv)
  show ?thesis unfolding strip_def lstrip_def rstrip_def d by simp
qed

lemma points_of_empty: "points_of [] = []"
  by (simp add: points_of_def split_def spec_clean_def strip_def lstrip_def rstrip_def)

lemma parse_review_fields:
  "parse_review (PyStr text) =
     Inr [(''Summary'', summary_value (search_until SUMMARY STRENGTHS text)),
          (''Strengths'', points_value (search_until STRENGTHS WEAKNESSES text)),
          (''Weaknesses'', points_value (search_until WEAKNESSES QUESTIONS text)),
          (''Questions'', points_value (search_rest QUESTIONS text))]"
  by (simp add: parse_review_def parse_str_fields)

lemma search_until_None: "search_until m nxt text = None \<longleftrightarrow> \<not> sublist m text"
  by (simp add: search_until_def after_marker_None)

lemma search_rest_None: "search_rest m text = None \<longleftrightarrow> \<not> sublist m text"
  by (simp add: search_rest_def after_marker_None)

subsection \<open>The span of a section\<close>

text \<open>
  C4, as stated, fails: in a text with a Summary and a Weaknesses marker but no Strengths
  marker, the summary content runs to the end of the text although a later marker
  follows, so it neither stops at a marker nor is the Summary marker the last one.
\<close>

theorem summary_span_counterexample:
  "search_until SUMMARY STRENGTHS ''**Summary**\<newline>A\<newline>**Weaknesses**\<newline>- b''
     = Some ''\<newline>A\<newline>**Weaknesses**\<newline>- b'' \<and>
   \<not> claimed_content SUMMARY ''**Summary**\<newline>A\<newline>**Weaknesses**\<newline>- b''
       ''\<newline>A\<newline>**Weaknesses**\<newline>- b''"
  by code_simp

text \<open>
  C4, amended: the content of a section is exactly the span between the first occurrence
  of its marker and the first occurrence after it of the one marker that follows it in
  the fixed order (Strengths after Summary, Weaknesses after Strengths, Questions after
  Weaknesses), or the end of the text when that marker does not occur after it; the
  content of Questions runs to the end of the text. The span is the shortest one and may
  hold newlines and blank lines.
\<close>

theorem section_content_span:
  "(search_until SUMMARY STRENGTHS text = Some c1 \<longleftrightarrow> section_span SUMMARY STRENGTHS text c1) \<and>
   (search_until STRENGTHS WEAKNESSES text = Some c2 \<longleftrightarrow>
      section_span STRENGTHS WEAKNESSES text c2) \<and>
   (search_until WEAKNESSES QUESTIONS text = Some c3 \<longleftrightarrow>
      section_span WEAKNESSES QUESTIONS text c3) \<and>
   (search_rest QUESTIONS text = Some c4 \<longleftrightarrow> (\<exists>pre. first_split QUESTIONS text pre c4))"
  by (simp add: search_until_span search_rest_def after_marker_first_split)

theorem section_content_span_witness:
  "section_span SUMMARY STRENGTHS
     ''Review **Summary**\<newline>A\<newline>\<newline>B**Strengths**\<newline>- s\<newline>**Questions**\<newline>q**Weaknesses**w''
     ''\<newline>A\<newline>\<newline>B'' \<and>
   section_span STRENGTHS WEAKNESSES
     ''Review **Summary**\<newline>A\<newline>\<newline>B**Strengths**\<newline>- s\<newline>**Questions**\<newline>q**Weaknesses**w''
     ''\<newline>- s\<newline>**Questions**\<newline>q'' \<and>
   section_span WEAKNESSES QUESTIONS
     ''Review **Summary**\<newline>A\<newline>\<newline>B**Strengths**\<newline>- s\<newline>**Questions**\<newline>q**Weaknesses**w''
     ''w'' \<and>
   (\<exists>pre. first_split QUESTIONS
     ''Review **Summary**\<newline>A\<newline>\<newline>B**Strengths**\<newline>- s\<newline>**Questions**\<newline>q**Weaknesses**w''
     pre ''\<newline>q**Weaknesses**w'')"
proof -
  let ?T = "''Review **Summary**\<newline>A\<newline>\<newline>B**Strengths**\<newline>- s\<newline>**Questions**\<newline>q**Weaknesses**w''"
  have 1: "search_until SUMMARY STRENGTHS ?T = Some ''\<newline>A\<newline>\<newline>B''" by code_simp
  have 2: "search_until STRENGTHS WEAKNESSES ?T = Some ''\<newline>- s\<newline>**Questions**\<newline>q''"
    by code_simp
  have 3: "search_until WEAKNESSES QUESTIONS ?T = Some ''w''" by code_simp
  have 4: "search_rest QUESTIONS ?T = Some ''\<newline>q**Weaknesses**w''" by code_simp
  show ?thesis
    using 1 2 3 4
      section_content_span [of ?T "''\<newline>A\<newline>\<newline>B''" "''\<newline>- s\<newline>**Questions**\<newline>q''" "''w''"
        "''\<newline>q**Weaknesses**w''"]
    by blast
qed

subsection \<open>The points of a section\<close>

text \<open>
  C5, as stated, fails: the program strips the content before it splits it. On the
  content \<open>\n- -x\<close> the steps of the claim, applied to the content as matched, give
  the point \<open>x\<close>, and the program gives \<open>-x\<close>.
\<close>

theorem split_unstripped_counterexample:
  "search_until STRENGTHS WEAKNESSES ''**Strengths**\<newline>- -x'' = Some ''\<newline>- -x'' \<and>
   points_of ''\<newline>- -x'' = [''x''] \<and>
   parse_review (PyStr ''**Strengths**\<newline>- -x'') =
     Inr [(''Summary'', []), (''Strengths'', [''-x'']), (''Weaknesses'', []),
          (''Questions'', [])]"
  by code_simp

text \<open>
  C5, amended: when the marker of Strengths, Weaknesses or Questions is present, the
  content is stripped of surrounding whitespace and then split on newline-hyphen; each
  candidate is stripped, a leading hyphen that remains is removed with the whitespace
  after it, empty candidates are dropped and the order is kept. A content of whitespace
  only gives no points.
\<close>

theorem section_points_pipeline:
  assumes "parse_review (PyStr text) = Inr d"
  shows "(search_until STRENGTHS WEAKNESSES text = Some c1 \<longrightarrow>
            map_of d ''Strengths'' = Some (points_of (strip c1)) \<and>
            (blank c1 \<longrightarrow> map_of d ''Strengths'' = Some [])) \<and>
         (search_until WEAKNESSES QUESTIONS text = Some c2 \<longrightarrow>
            map_of d ''Weaknesses'' = Some (points_of (strip c2)) \<and>
            (blank c2 \<longrightarrow> map_of d ''Weaknesses'' = Some [])) \<and>
         (search_rest QUESTIONS text = Some c3 \<longrightarrow>
            map_of d ''Questions'' = Some (points_of (strip c3)) \<and>
            (blank c3 \<longrightarrow> map_of d ''Questions'' = Some []))"
proof -
  have b: "\<And>c. blank c \<Longrightarrow> points_of (strip c) = []"
    by (simp add: strip_blank points_of_empty)
  from assms have d: "d =
     [(''Summary'', summary_value (search_until SUMMARY STRENGTHS text)),
      (''Strengths'', points_value (search_until STRENGTHS WEAKNESSES text)),
      (''Weaknesses'', points_value (search_until WEAKNESSES QUESTIONS text)),
      (''Questions'', points_value (search_rest QUESTIONS text))]"
    by (simp add: parse_review_fields)
  show ?thesis
    by (simp add: d points_value_def section_points_spec b)
qed

theorem section_points_pipeline_witness:
  "parse_review (PyStr ''**Strengths**first\<newline>- a b \<newline>-\<newline>- - c\<newline>**Weaknesses** \<newline> **Questions**\<newline>--q\<newline>-r'') =
     Inr [(''Summary'', []), (''Strengths'', [''first'', ''a b'', ''c'']),
          (''Weaknesses'', []), (''Questions'', [''-q'', ''r''])] \<and>
   map_of [(''Summary'', []), (''Strengths'', [''first'', ''a b'', ''c'']),
          (''Weaknesses'', []), (''Questions'', [''-q'', ''r''])] ''Strengths''
     = Some (points_of (strip ''first\<newline>- a b \<newline>-\<newline>- - c\<newline>'')) \<and>
   blank '' \<newline> '' \<and>
   map_of [(''Summary'', []), (''Strengths'', [''first'', ''a b'', ''c'']),
          (''Weaknesses'', []), (''Questions'', [''-q'', ''r''])] ''Questions''
     = Some (points_of (strip ''\<newline>--q\<newline>-r''))"
proof -
  let ?T = "''**Strengths**first\<newline>- a b \<newline>-\<newline>- - c\<newline>**Weaknesses** \<newline> **Questions**\<newline>--q\<newline>-r''"
  let ?D = "[(''Summary'', []), (''Strengths'', [''first'', ''a b'', ''c'']),
          (''Weaknesses'', []), (''Questions'', [''-q'', ''r''])]"
  have p: "parse_review (PyStr ?T) = Inr ?D" by code_simp
  have 1: "search_until STRENGTHS WEAKNESSES ?T = Some ''first\<newline>- a b \<newline>-\<newline>- - c\<newline>''"
    by code_simp
  have 2: "search_until WEAKNESSES QUESTIONS ?T = Some '' \<newline> ''" by code_simp
  have 3: "search_rest QUESTIONS ?T = Some ''\<newline>--q\<newline>-r''" by code_simp
  have 4: "blank '' \<newline> ''" by code_simp
  show ?thesis
    using p 1 2 3 4
      section_points_pipeline [OF p, of "''first\<newline>- a b \<newline>-\<newline>- - c\<newline>''" "'' \<newline> ''" "''\<newline>--q\<newline>-r''"]
    by blast
qed

subsection \<open>Absent markers\<close>

text \<open>
  C6: for every string, \<open>parse_review\<close> returns a dict, and a section whose marker does
  not occur in the text is bound to the empty list; the summary is also the empty list
  when its marker is present with a content of whitespace only.
\<close>

theorem absent_marker_empty:
  "\<exists>d. parse_review (PyStr text) = Inr d \<and>
       (\<not> sublist SUMMARY text \<longrightarrow> map_of d ''Summary'' = Some []) \<and>
       (\<forall>c. search_until SUMMARY STRENGTHS text = Some c \<and> blank c \<longrightarrow>
            map_of d ''Summary'' = Some []) \<and>
       (\<not> sublist STRENGTHS text \<longrightarrow> map_of d ''Strengths'' = Some []) \<and>
       (\<not> sublist WEAKNESSES text \<longrightarrow> map_of d ''Weaknesses'' = Some []) \<and>
       (\<not> sublist QUESTIONS text \<longrightarrow> map_of d ''Questions'' = Some [])"
proof -
  have n: "\<And>m nxt. \<not> sublist m text \<Longrightarrow> search_until m nxt text = None"
    by (simp add: search_until_None)
  have r: "\<And>m. \<not> sublist m text \<Longrightarrow> search_rest m text = None"
    by (simp add: search_rest_None)
  show ?thesis
    by (simp add: parse_review_fields) 
       (auto simp: n r summary_value_def points_value_def strip_blank)
qed

theorem absent_marker_empty_witness:
  "\<not> sublist SUMMARY ''A review without markers.'' \<and>
   \<not> sublist STRENGTHS ''A review without markers.'' \<and>
   \<not> sublist WEAKNESSES ''A review without markers.'' \<and>
   \<not> sublist QUESTIONS ''A review without markers.'' \<and>
   (\<exists>d. parse_review (PyStr ''A review without markers.'') = Inr d \<and>
        map_of d ''Summary'' = Some [] \<and> map_of d ''Strengths'' = Some [] \<and>
        map_of d ''Weaknesses'' = Some [] \<and> map_of d ''Questions'' = Some []) \<and>
   search_until SUMMARY STRENGTHS ''**Summary** \<newline>  **Strengths**x'' = Some '' \<newline>  '' \<and>
   blank '' \<newline>  '' \<and>
   (\<exists>d. parse_review (PyStr ''**Summary** \<newline>  **Strengths**x'') = Inr d \<and>
        map_of d ''Summary'' = Some [])"
proof -
  have 1: "\<not> sublist SUMMARY ''A review without markers.''" by code_simp
  have 2: "\<not> sublist STRENGTHS ''A review without markers.''" by code_simp
  have 3: "\<not> sublist WEAKNESSES ''A review without markers.''" by code_simp
  have 4: "\<not> sublist QUESTIONS ''A review without markers.''" by code_simp
  have 5: "search_until SUMMARY STRENGTHS ''**Summary** \<newline>  **Strengths**x'' = Some '' \<newline>  ''"
    by code_simp
  have 6: "blank '' \<newline>  ''" by code_simp
  show ?thesis
    using 1 2 3 4 5 6 absent_marker_empty [of "''A review without markers.''"]
      absent_marker_empty [of "''**Summary** \<newline>  **Strengths**x''"]
    by blast
qed

subsection \<open>A missing intermediate marker\<close>



section \<open>Properties of the evaluation store\<close>











text \<open>
  C8: \<open>get_user_progress\<close> never raises, and it returns 0 when the results file does not
  exist, when reading or parsing it raises any exception, when the frame read is empty,
  and when the frame read has no user column.
\<close>

theorem get_user_progress_zero:
  "(\<exists>n. get_user_progress read_csv fs path usr = Inr n) \<and>
   (fs path = None \<longrightarrow> get_user_progress read_csv fs path usr = Inr 0) \<and>
   (\<forall>file e. fs path = Some file \<and> read_csv file = Inl e \<longrightarrow>
      get_user_progress read_csv fs path usr = Inr 0) \<and>
   (\<forall>file df. fs path = Some file \<and> read_csv file = Inr df \<and> frame_empty df \<longrightarrow>
      get_user_progress read_csv fs path usr = Inr 0) \<and>
   (\<forall>file df. fs path = Some file \<and> read_csv file = Inr df \<and>
      ''user'' \<notin> set (columns df) \<longrightarrow>
      get_user_progress read_csv fs path usr = Inr 0)"
  by (auto simp: get_user_progress_def progress_try_def column_def
      split: option.splits sum.splits)

theorem get_user_progress_zero_witness:
  "get_user_progress read_csv_file Map.empty results_csv ''alice'' = Inr 0 \<and>
   read_csv_file ZeroBytes = Inl EmptyDataError \<and>
   get_user_progress read_csv_file (Map.empty(results_csv \<mapsto> ZeroBytes)) results_csv ''alice''
     = Inr 0 \<and>
   read_csv_file (Csv header_only) = Inr header_only \<and> frame_empty header_only \<and>
   get_user_progress read_csv_file (Map.empty(results_csv \<mapsto> Csv header_only)) results_csv
     ''alice'' = Inr 0 \<and>
   ''user'' \<notin> set (columns \<lparr>columns = [''name''], rows = [Map.empty(''name'' \<mapsto> PyStr ''alice'')]\<rparr>) \<and>
   get_user_progress read_csv_file
     (Map.empty(results_csv \<mapsto>
        Csv \<lparr>columns = [''name''], rows = [Map.empty(''name'' \<mapsto> PyStr ''alice'')]\<rparr>))
     results_csv ''alice'' = Inr 0"
proof -
  let ?bad = "\<lparr>columns = [''name''], rows = [Map.empty(''name'' \<mapsto> PyStr ''alice'')]\<rparr>"
  have 1: "(Map.empty :: string \<Rightarrow> csv_file option) results_csv = None" by simp
  have 2: "(Map.empty(results_csv \<mapsto> ZeroBytes)) results_csv = Some ZeroBytes" by simp
  have 3: "read_csv_file ZeroBytes = Inl EmptyDataError" by (simp add: read_csv_file_def)
  have 4: "(Map.empty(results_csv \<mapsto> Csv header_only)) results_csv = Some (Csv header_only)"
    by simp
  have 5: "read_csv_file (Csv header_only) = Inr header_only" by (simp add: read_csv_file_def)
  have 6: "frame_empty header_only" by (simp add: frame_empty_def header_only_def)
  have 7: "(Map.empty(results_csv \<mapsto> Csv ?bad)) results_csv = Some (Csv ?bad)" by simp
  have 8: "read_csv_file (Csv ?bad) = Inr ?bad" by (simp add: read_csv_file_def)
  have 9: "''user'' \<notin> set (columns ?bad)" by simp
  show ?thesis
    using 1 2 3 4 5 6 7 8 9
      get_user_progress_zero [where read_csv = read_csv_file and fs = Map.empty
        and path = results_csv and usr = "''alice''"]
      get_user_progress_zero [where read_csv = read_csv_file and fs = "Map.empty(results_csv \<mapsto> ZeroBytes)"
        and path = results_csv and usr = "''alice''"]
      get_user_progress_zero [where read_csv = read_csv_file and fs = "Map.empty(results_csv \<mapsto> Csv header_only)"
        and path = results_csv and usr = "''alice''"]
      get_user_progress_zero [where read_csv = read_csv_file and fs = "Map.empty(results_csv \<mapsto> Csv ?bad)"
        and path = results_csv and usr = "''alice''"]
    by blast
qed

end
